theory Spec2Isabelle
  imports Main "HOL-Library.Stream"
begin

section \<open>Geometry and directions (src/main.py, lines 13-38)\<close>

text \<open>
  \<^verbatim>\<open>class Direction(IntEnum)\<close> with its four members, and the method
  \<^verbatim>\<open>opposite(self, other)\<close>, a disjunction of four conjunctions.
\<close>

datatype Direction = UP | DOWN | RIGHT | LEFT

definition opposite :: "Direction \<Rightarrow> Direction \<Rightarrow> bool" where
  "opposite self other =
     (self = UP \<and> other = DOWN
      \<or> self = DOWN \<and> other = UP
      \<or> self = RIGHT \<and> other = LEFT
      \<or> self = LEFT \<and> other = RIGHT)"

text \<open>
  \<^verbatim>\<open>@dataclass class Point\<close>: two Python integers (unbounded, hence \<open>int\<close>);
  dataclass equality is field-wise, which is the equality of the record.
  \<^verbatim>\<open>Point.__add__\<close> builds a new point.
\<close>

record Point =
  x :: int
  y :: int

definition point_add :: "Point \<Rightarrow> Point \<Rightarrow> Point" where
  "point_add self other = \<lparr>x = x self + x other, y = y self + y other\<rparr>"

text \<open>The dictionary \<^verbatim>\<open>units\<close>: it has a key for every member of the enum.\<close>

fun units :: "Direction \<Rightarrow> Point" where
  "units UP = \<lparr>x = 0, y = -1\<rparr>"
| "units DOWN = \<lparr>x = 0, y = 1\<rparr>"
| "units RIGHT = \<lparr>x = 1, y = 0\<rparr>"
| "units LEFT = \<lparr>x = -1, y = 0\<rparr>"

section \<open>Snake and board (src/main.py, lines 40-65)\<close>

record BodyPart =
  point :: Point
  direction :: Direction

text \<open>The deque \<^verbatim>\<open>body\<close> is a list, tail first and head last.\<close>

record Snake =
  body :: "BodyPart list"

definition body_points :: "Snake \<Rightarrow> Point list" where
  "body_points s = map (\<lambda>part. point part) (body s)"

record Board =
  width :: int
  height :: int
  obstacles :: "Point list"
  snake :: Snake
  apples :: "Point list"
  score :: int

definition within_borders :: "Board \<Rightarrow> Point \<Rightarrow> bool" where
  "within_borders b p = (0 \<le> x p \<and> x p < width b \<and> 0 \<le> y p \<and> y p < height b)"

section \<open>Exceptions and library calls\<close>

text \<open>
  The exceptions the modelled code can raise: \<^verbatim>\<open>IndexError\<close> from
  \<^verbatim>\<open>body[-1]\<close> and \<^verbatim>\<open>popleft()\<close> on an empty deque,
  \<^verbatim>\<open>ValueError\<close> from \<^verbatim>\<open>randint\<close> on an empty range and from
  \<^verbatim>\<open>list.remove\<close> of an absent element, and \<^verbatim>\<open>RecursionError\<close> from
  the interpreter when the recursion of \<^verbatim>\<open>new_apple\<close> exceeds its limit.
\<close>

datatype error = IndexError | ValueError | RecursionError

text \<open>\<^verbatim>\<open>d[-1]\<close> on a deque.\<close>

definition last_elem :: "'a list \<Rightarrow> error + 'a" where
  "last_elem xs = (if xs = [] then Inl IndexError else Inr (last xs))"

text \<open>\<^verbatim>\<open>d.popleft()\<close>: the removed element and the remaining deque.\<close>

definition popleft :: "'a list \<Rightarrow> error + ('a \<times> 'a list)" where
  "popleft xs = (case xs of [] \<Rightarrow> Inl IndexError | v # vs \<Rightarrow> Inr (v, vs))"

text \<open>\<^verbatim>\<open>l.remove(v)\<close>: removes the first occurrence.\<close>

definition list_remove :: "'a list \<Rightarrow> 'a \<Rightarrow> error + 'a list" where
  "list_remove xs v = (if v \<in> set xs then Inr (remove1 v xs) else Inl ValueError)"

text \<open>
  The random generator is a stream of raw draws. \<^verbatim>\<open>randint(a, b)\<close> raises
  ValueError on an empty range, and otherwise consumes one draw and returns an integer
  of \<open>[a, b]\<close>; every integer of the range is the image of some draw.
\<close>

type_synonym rng = "int stream"

definition randint :: "int \<Rightarrow> int \<Rightarrow> rng \<Rightarrow> error + (int \<times> rng)" where
  "randint a b g =
     (if b < a then Inl ValueError else Inr (a + shd g mod (b - a + 1), stl g))"

section \<open>Board.new_apple (src/main.py, lines 89-96)\<close>

text \<open>
  The retry is a recursive call with no bound of its own; what bounds it is the
  recursion limit of the interpreter. The parameter \<open>depth\<close> is the number of nested
  activations of \<^verbatim>\<open>new_apple\<close> that the interpreter still admits where the method
  is called (the limit, 1000 by default, less the frames already on the stack and those
  the calls inside one activation need): with none left the call raises RecursionError.
  The rejected samples change no field, so the exception leaves the board as it was.
  The result is \<open>Inl e\<close> for a raised exception and \<open>Inr (b', g')\<close> for a normal
  return with the mutated board and the rest of the random stream.
\<close>

definition collides :: "Board \<Rightarrow> Point \<Rightarrow> bool" where
  "collides b apple =
     (apple \<in> set (obstacles b) \<or> apple \<in> set (apples b)
      \<or> apple \<in> set (body_points (snake b)))"

fun new_apple :: "nat \<Rightarrow> Board \<Rightarrow> rng \<Rightarrow> error + (Board \<times> rng)" where
  "new_apple 0 b g = Inl RecursionError"
| "new_apple (Suc depth) b g =
     (case randint 0 (width b - 1) g of
        Inl e \<Rightarrow> Inl e
      | Inr (new_x, g1) \<Rightarrow>
          (case randint 0 (height b - 1) g1 of
             Inl e \<Rightarrow> Inl e
           | Inr (new_y, g2) \<Rightarrow>
               (let apple = \<lparr>x = new_x, y = new_y\<rparr> in
                if collides b apple then new_apple depth b g2
                else Inr (b\<lparr>apples := apples b @ [apple]\<rparr>, g2))))"

section \<open>Board.update (src/main.py, lines 67-87)\<close>

text \<open>
  Lines 74-79: when \<open>next_pos\<close> is an apple, remove it, place a replacement and
  increment the score; otherwise pop the tail. An exception of \<^verbatim>\<open>new_apple\<close>
  leaves the method at once, and so does one of \<^verbatim>\<open>popleft\<close>.
\<close>

definition eat_or_shrink :: "nat \<Rightarrow> Board \<Rightarrow> Point \<Rightarrow> rng \<Rightarrow> error + (Board \<times> rng)" where
  "eat_or_shrink depth b next_pos g =
     (if next_pos \<in> set (apples b) then
        (case list_remove (apples b) next_pos of
           Inl e \<Rightarrow> Inl e
         | Inr as \<Rightarrow>
             (case new_apple depth (b\<lparr>apples := as\<rparr>) g of
                Inl e \<Rightarrow> Inl e
              | Inr (b1, g1) \<Rightarrow> Inr (b1\<lparr>score := score b1 + 1\<rparr>, g1)))
      else
        (case popleft (body (snake b)) of
           Inl e \<Rightarrow> Inl e
         | Inr (_, rest) \<Rightarrow> Inr (b\<lparr>snake := (snake b)\<lparr>body := rest\<rparr>\<rparr>, g)))"

text \<open>
  Lines 81-87: the death check on the adjusted body, then the rewrite of the direction
  of the last segment (\<^verbatim>\<open>body[-1].direction = direction\<close>, an IndexError on an
  empty deque) and the new head.
\<close>

definition move_head :: "Board \<Rightarrow> Point \<Rightarrow> Direction \<Rightarrow> error + (bool \<times> Board)" where
  "move_head b next_pos d =
     (if next_pos \<in> set (obstacles b) \<or> next_pos \<in> set (body_points (snake b))
      then Inr (False, b)
      else
        (case last_elem (body (snake b)) of
           Inl e \<Rightarrow> Inl e
         | Inr old_head \<Rightarrow>
             Inr (True,
               b\<lparr>snake := (snake b)\<lparr>body :=
                    butlast (body (snake b)) @ [old_head\<lparr>direction := d\<rparr>]
                      @ [\<lparr>point = next_pos, direction = d\<rparr>]\<rparr>\<rparr>)))"

text \<open>
  The whole method. The parameter \<open>shifted\<close> is received and never read; \<open>depth\<close>
  is the recursion depth left for \<^verbatim>\<open>new_apple\<close>. The result is \<open>Inl e\<close> when
  the call raises and \<open>Inr (alive, b', g')\<close> when it returns \<open>alive\<close> and leaves the
  board \<open>b'\<close>.
\<close>

definition update :: "nat \<Rightarrow> Board \<Rightarrow> Direction \<Rightarrow> bool \<Rightarrow> rng \<Rightarrow> error + (bool \<times> Board \<times> rng)" where
  "update depth b d shifted g =
     (case last_elem (body (snake b)) of
        Inl e \<Rightarrow> Inl e
      | Inr head \<Rightarrow>
          if opposite (direction head) d then Inr (True, b, g)
          else
            (let head_pos = point head;
                 next_pos = point_add head_pos (units d)
             in case eat_or_shrink depth b next_pos g of
                  Inl e \<Rightarrow> Inl e
                | Inr (b2, g2) \<Rightarrow>
                    (case move_head b2 next_pos d of
                       Inl e \<Rightarrow> Inl e
                     | Inr (alive, b3) \<Rightarrow> Inr (alive, b3, g2))))"

text \<open>The head's next cell, as line 72 computes it.\<close>

definition next_cell :: "Board \<Rightarrow> Direction \<Rightarrow> Point" where
  "next_cell b d = point_add (point (last (body (snake b)))) (units d)"

section \<open>Game.init (src/main.py, lines 142-151)\<close>

text \<open>
  Only the fields that the initialisation of the board touches are modelled: the replay
  flag and the board (absent until \<^verbatim>\<open>init\<close> has run). The calls into curses
  that follow the construction of the board act on the terminal only.
\<close>

record Game =
  replay :: bool
  board :: "Board option"

text \<open>The loop of lines 144-145 over \<^verbatim>\<open>range(1,4)\<close>.\<close>

definition init_snake :: Snake where
  "init_snake =
     \<lparr>body = fold (\<lambda>i bd. bd @ [\<lparr>point = \<lparr>x = i, y = 1\<rparr>, direction = RIGHT\<rparr>]) [1..3] []\<rparr>"

text \<open>
  The nested loops of lines 148-151: \<open>i\<close> runs over \<^verbatim>\<open>range(height)\<close>, \<open>j\<close> over
  \<^verbatim>\<open>range(width)\<close>, and a point is appended for every cell of the first or
  last row or column.
\<close>

definition wall_row :: "int \<Rightarrow> int \<Rightarrow> int \<Rightarrow> Point list \<Rightarrow> Point list" where
  "wall_row h w i obs0 =
     fold (\<lambda>j obs. if i = 0 \<or> i = h - 1 \<or> j = 0 \<or> j = w - 1
                     then obs @ [\<lparr>x = j, y = i\<rparr>] else obs) [0..w - 1] obs0"

definition walls :: "int \<Rightarrow> int \<Rightarrow> Point list" where
  "walls h w = fold (\<lambda>i obs. wall_row h w i obs) [0..h - 1] []"

definition init :: "Game \<Rightarrow> int \<Rightarrow> int \<Rightarrow> Game" where
  "init self h w =
     self\<lparr>board := Some \<lparr>width = w, height = h, obstacles = walls h w, snake = init_snake,
                          apples = [\<lparr>x = w div 2, y = h div 2\<rparr>], score = 0\<rparr>\<rparr>"

section \<open>Vocabulary of the properties\<close>

text \<open>
  The cell \<^verbatim>\<open>new_apple\<close> samples first from the stream \<open>g\<close> on a board with
  cells (positive width and height), the stream after \<open>n\<close> rejected samples
  (each sample takes two draws), and the stream that yields the sample (0,0) \<open>n\<close>
  times before it goes on as \<open>g\<close>.
\<close>

definition cand :: "Board \<Rightarrow> rng \<Rightarrow> Point" where
  "cand b g = \<lparr>x = shd g mod width b, y = shd (stl g) mod height b\<rparr>"

fun drop_pairs :: "nat \<Rightarrow> rng \<Rightarrow> rng" where
  "drop_pairs 0 g = g"
| "drop_pairs (Suc n) g = drop_pairs n (stl (stl g))"

fun zero_draws :: "nat \<Rightarrow> rng \<Rightarrow> rng" where
  "zero_draws 0 g = g"
| "zero_draws (Suc n) g = 0 ## 0 ## zero_draws n g"

text \<open>A cell of the grid that is neither an obstacle, nor an apple, nor a body point.\<close>

definition free_cell :: "Board \<Rightarrow> Point \<Rightarrow> bool" where
  "free_cell b p = (within_borders b p \<and> \<not> collides b p)"

text \<open>
  Every point of \<open>[0,width) x [0,height)\<close> is an obstacle, an apple or a body point
  (lemma \<open>saturated_iff\<close> below states it with a quantifier).
\<close>

definition saturated :: "Board \<Rightarrow> bool" where
  "saturated b =
     list_all (\<lambda>i. list_all (\<lambda>j. collides b \<lparr>x = j, y = i\<rparr>) [0..width b - 1])
       [0..height b - 1]"

text \<open>What a call of \<^verbatim>\<open>new_apple\<close> on board \<open>b\<close> can result in.\<close>

definition apple_ok :: "Board \<Rightarrow> error + (Board \<times> rng) \<Rightarrow> bool" where
  "apple_ok b r =
     (case r of
        Inl e \<Rightarrow> e = RecursionError \<or> e = ValueError \<and> (width b \<le> 0 \<or> height b \<le> 0)
      | Inr (b', g') \<Rightarrow>
          0 < width b \<and> 0 < height b \<and>
          (\<exists>p. b' = b\<lparr>apples := apples b @ [p]\<rparr> \<and> free_cell b p))"

text \<open>
  Boards of the examples: the 30 x 20 board of a session with the starting snake and
  the given apples; a 5 x 3 board whose three inner cells are the starting snake, with
  an apple on the wall cell in front of the head; the
  30 x 20 board with a snake curled around its own tail, an apple under the tail;
  and the 30 x 20 board with a snake of a single segment.
\<close>

definition session_board :: "Point list \<Rightarrow> Board" where
  "session_board as =
     \<lparr>width = 30, height = 20, obstacles = walls 20 30, snake = init_snake,
      apples = as, score = 0\<rparr>"

definition full_board :: Board where
  "full_board =
     \<lparr>width = 5, height = 3, obstacles = walls 3 5, snake = init_snake,
      apples = [\<lparr>x = 4, y = 1\<rparr>], score = 0\<rparr>"

definition curled_snake :: Snake where
  "curled_snake =
     \<lparr>body = [\<lparr>point = \<lparr>x = 1, y = 1\<rparr>, direction = RIGHT\<rparr>,
              \<lparr>point = \<lparr>x = 2, y = 1\<rparr>, direction = DOWN\<rparr>,
              \<lparr>point = \<lparr>x = 2, y = 2\<rparr>, direction = LEFT\<rparr>,
              \<lparr>point = \<lparr>x = 1, y = 2\<rparr>, direction = LEFT\<rparr>]\<rparr>"

definition curled_board :: Board where
  "curled_board =
     \<lparr>width = 30, height = 20, obstacles = walls 20 30, snake = curled_snake,
      apples = [\<lparr>x = 1, y = 1\<rparr>], score = 0\<rparr>"

definition lone_board :: Board where
  "lone_board =
     \<lparr>width = 30, height = 20, obstacles = walls 20 30,
      snake = \<lparr>body = [\<lparr>point = \<lparr>x = 1, y = 1\<rparr>, direction = RIGHT\<rparr>]\<rparr>,
      apples = [\<lparr>x = 15, y = 10\<rparr>], score = 0\<rparr>"

section \<open>Basic facts\<close>

lemma opposite_simps [simp]:
  "opposite UP d = (d = DOWN)" "opposite DOWN d = (d = UP)"
  "opposite RIGHT d = (d = LEFT)" "opposite LEFT d = (d = RIGHT)"
  by (auto simp: opposite_def)

lemma point_eta: "\<lparr>x = x p, y = y p\<rparr> = (p :: Point)"
  by (cases p) simp

lemma init_snake_body:
  "body init_snake =
     [\<lparr>point = \<lparr>x = 1, y = 1\<rparr>, direction = RIGHT\<rparr>,
      \<lparr>point = \<lparr>x = 2, y = 1\<rparr>, direction = RIGHT\<rparr>,
      \<lparr>point = \<lparr>x = 3, y = 1\<rparr>, direction = RIGHT\<rparr>]"
  by (simp add: init_snake_def upto_rec1)

subsection \<open>The walls built by the nested loops\<close>

lemma fold_cond_append:
  "fold (\<lambda>j obs. if c j then obs @ [f j] else obs) js obs0 = obs0 @ map f (filter c js)"
  by (induction js arbitrary: obs0) simp_all

lemma fold_append_rows:
  "fold (\<lambda>i obs. obs @ row i) rows obs0 = obs0 @ concat (map row rows)"
  by (induction rows arbitrary: obs0) simp_all

lemma wall_row_eq:
  "wall_row h w i obs0 =
     obs0 @ map (\<lambda>j. \<lparr>x = j, y = i\<rparr>)
              (filter (\<lambda>j. i = 0 \<or> i = h - 1 \<or> j = 0 \<or> j = w - 1) [0..w - 1])"
  unfolding wall_row_def by (rule fold_cond_append)

lemma walls_eq:
  "walls h w =
     concat (map (\<lambda>i. map (\<lambda>j. \<lparr>x = j, y = i\<rparr>)
                         (filter (\<lambda>j. i = 0 \<or> i = h - 1 \<or> j = 0 \<or> j = w - 1) [0..w - 1]))
                 [0..h - 1])"
  unfolding walls_def wall_row_eq by (simp add: fold_append_rows)

lemma in_walls:
  "p \<in> set (walls h w) \<longleftrightarrow>
     0 \<le> x p \<and> x p < w \<and> 0 \<le> y p \<and> y p < h \<and>
     (x p = 0 \<or> x p = w - 1 \<or> y p = 0 \<or> y p = h - 1)"
proof -
  have "p \<in> set (walls h w) \<longleftrightarrow>
     (\<exists>i j. 0 \<le> i \<and> i \<le> h - 1 \<and> 0 \<le> j \<and> j \<le> w - 1 \<and>
            (i = 0 \<or> i = h - 1 \<or> j = 0 \<or> j = w - 1) \<and> p = \<lparr>x = j, y = i\<rparr>)"
    unfolding walls_eq by auto
  also have "\<dots> \<longleftrightarrow> 0 \<le> x p \<and> x p < w \<and> 0 \<le> y p \<and> y p < h \<and>
     (x p = 0 \<or> x p = w - 1 \<or> y p = 0 \<or> y p = h - 1)"
  proof
    assume "\<exists>i j. 0 \<le> i \<and> i \<le> h - 1 \<and> 0 \<le> j \<and> j \<le> w - 1 \<and>
            (i = 0 \<or> i = h - 1 \<or> j = 0 \<or> j = w - 1) \<and> p = \<lparr>x = j, y = i\<rparr>"
    then show "0 \<le> x p \<and> x p < w \<and> 0 \<le> y p \<and> y p < h \<and>
     (x p = 0 \<or> x p = w - 1 \<or> y p = 0 \<or> y p = h - 1)"
      by auto
  next
    assume a: "0 \<le> x p \<and> x p < w \<and> 0 \<le> y p \<and> y p < h \<and>
     (x p = 0 \<or> x p = w - 1 \<or> y p = 0 \<or> y p = h - 1)"
    have "p = \<lparr>x = x p, y = y p\<rparr>" by (simp add: point_eta)
    with a show "\<exists>i j. 0 \<le> i \<and> i \<le> h - 1 \<and> 0 \<le> j \<and> j \<le> w - 1 \<and>
            (i = 0 \<or> i = h - 1 \<or> j = 0 \<or> j = w - 1) \<and> p = \<lparr>x = j, y = i\<rparr>"
      by (intro exI[of _ "y p"] exI[of _ "x p"]) auto
  qed
  finally show ?thesis .
qed

subsection \<open>One retry of new_apple at a time\<close>

lemma new_apple_step:
  assumes "0 < width b" "0 < height b"
  shows "new_apple (Suc k) b g =
     (if collides b (cand b g) then new_apple k b (stl (stl g))
      else Inr (b\<lparr>apples := apples b @ [cand b g]\<rparr>, stl (stl g)))"
  using assms by (simp add: randint_def cand_def)

lemma new_apple_step_pos:
  assumes "0 < k" "0 < width b" "0 < height b"
  shows "new_apple k b g =
     (if collides b (cand b g) then new_apple (k - 1) b (stl (stl g))
      else Inr (b\<lparr>apples := apples b @ [cand b g]\<rparr>, stl (stl g)))"
  using assms by (cases k) (simp_all add: new_apple_step del: new_apple.simps)

lemma new_apple_no_cells:
  assumes "width b \<le> 0 \<or> height b \<le> 0"
  shows "new_apple (Suc k) b g = Inl ValueError"
  using assms by (auto simp: randint_def)

lemma cand_within:
  assumes "0 < width b" "0 < height b"
  shows "within_borders b (cand b g)"
  using assms by (simp add: within_borders_def cand_def)

lemma within_borders_positive:
  "within_borders b p \<Longrightarrow> 0 < width b \<and> 0 < height b"
  by (auto simp: within_borders_def)

lemma new_apple_result: "apple_ok b (new_apple k b g)"
proof (induction k arbitrary: g)
  case 0
  show ?case by (simp add: apple_ok_def)
next
  case (Suc k)
  show ?case
  proof (cases "0 < width b \<and> 0 < height b")
    case False
    then have "new_apple (Suc k) b g = Inl ValueError"
      by (intro new_apple_no_cells) auto
    with False show ?thesis by (auto simp: apple_ok_def)
  next
    case pos: True
    show ?thesis
    proof (cases "collides b (cand b g)")
      case True
      with pos have "new_apple (Suc k) b g = new_apple k b (stl (stl g))"
        by (simp add: new_apple_step del: new_apple.simps)
      then show ?thesis using Suc.IH by simp
    next
      case False
      with pos cand_within[of b g] show ?thesis
        by (auto simp: new_apple_step apple_ok_def free_cell_def simp del: new_apple.simps)
    qed
  qed
qed

lemma new_apple_exhausted:
  assumes "0 < width b" "0 < height b"
    and "\<forall>i<k. collides b (cand b (drop_pairs i g))"
  shows "new_apple k b g = Inl RecursionError"
  using assms(3)
proof (induction k arbitrary: g)
  case 0
  show ?case by simp
next
  case (Suc k)
  have c0: "collides b (cand b g)"
    using Suc.prems by (metis drop_pairs.simps(1) zero_less_Suc)
  have "\<forall>i<k. collides b (cand b (drop_pairs i (stl (stl g))))"
    using Suc.prems by (metis Suc_less_eq drop_pairs.simps(2))
  then have "new_apple k b (stl (stl g)) = Inl RecursionError"
    by (rule Suc.IH)
  with c0 assms(1,2) show ?case
    by (simp add: new_apple_step del: new_apple.simps)
qed

lemma new_apple_first_free:
  assumes "0 < width b" "0 < height b"
    and "\<forall>i<n. collides b (cand b (drop_pairs i g))"
    and "\<not> collides b (cand b (drop_pairs n g))"
    and "n < k"
  shows "new_apple k b g =
     Inr (b\<lparr>apples := apples b @ [cand b (drop_pairs n g)]\<rparr>, drop_pairs (Suc n) g)"
  using assms(3,4,5)
proof (induction n arbitrary: g k)
  case 0
  then obtain k' where "k = Suc k'" by (cases k) auto
  with 0 show ?case using assms(1,2) by (simp add: new_apple_step del: new_apple.simps)
next
  case (Suc n)
  from Suc.prems(3) obtain k' where k: "k = Suc k'" and nk: "n < k'" by (cases k) auto
  have c0: "collides b (cand b g)"
    using Suc.prems(1) by (metis drop_pairs.simps(1) zero_less_Suc)
  have "\<forall>i<n. collides b (cand b (drop_pairs i (stl (stl g))))"
    using Suc.prems(1) by (metis Suc_less_eq drop_pairs.simps(2))
  moreover have "\<not> collides b (cand b (drop_pairs n (stl (stl g))))"
    using Suc.prems(2) by simp
  ultimately have "new_apple k' b (stl (stl g)) =
     Inr (b\<lparr>apples := apples b @ [cand b (drop_pairs n (stl (stl g)))]\<rparr>,
          drop_pairs (Suc n) (stl (stl g)))"
    using nk by (rule Suc.IH)
  then show ?case using c0 assms(1,2) k
    by (simp add: new_apple_step del: new_apple.simps)
qed

lemma saturated_iff: "saturated b \<longleftrightarrow> (\<forall>p. within_borders b p \<longrightarrow> collides b p)"
proof
  assume s: "saturated b"
  show "\<forall>p. within_borders b p \<longrightarrow> collides b p"
  proof (intro allI impI)
    fix p assume "within_borders b p"
    then have "collides b \<lparr>x = x p, y = y p\<rparr>"
      using s by (auto simp: saturated_def list_all_iff within_borders_def)
    then show "collides b p" by (simp add: point_eta)
  qed
next
  assume "\<forall>p. within_borders b p \<longrightarrow> collides b p"
  then show "saturated b"
    by (auto simp: saturated_def list_all_iff within_borders_def)
qed

lemma saturated_rejects:
  assumes "saturated b" "0 < width b" "0 < height b"
  shows "collides b (cand b g)"
  using assms cand_within[of b g] by (simp add: saturated_iff)

lemma new_apple_saturated:
  assumes "saturated b" "0 < width b" "0 < height b"
  shows "new_apple k b g = Inl RecursionError"
  using assms by (intro new_apple_exhausted) (simp_all add: saturated_rejects)

lemma drop_pairs_zero_draws:
  "i \<le> n \<Longrightarrow> drop_pairs i (zero_draws n g) = zero_draws (n - i) g"
proof (induction i arbitrary: n)
  case 0
  show ?case by simp
next
  case (Suc i)
  then obtain m where "n = Suc m" "i \<le> m" by (cases n) auto
  with Suc.IH[of m] show ?case by simp
qed

subsection \<open>The two phases of update\<close>

lemma update_empty: "body (snake b) = [] \<Longrightarrow> update k b d shifted g = Inl IndexError"
  by (simp add: update_def last_elem_def)

lemma update_reversal:
  "body (snake b) \<noteq> [] \<Longrightarrow> opposite (direction (last (body (snake b)))) d \<Longrightarrow>
   update k b d shifted g = Inr (True, b, g)"
  by (simp add: update_def last_elem_def)

lemma update_steps:
  assumes "body (snake b) \<noteq> []" "\<not> opposite (direction (last (body (snake b)))) d"
  shows "update k b d shifted g =
     (case eat_or_shrink k b (next_cell b d) g of
        Inl e \<Rightarrow> Inl e
      | Inr (b2, g2) \<Rightarrow>
          (case move_head b2 (next_cell b d) d of
             Inl e \<Rightarrow> Inl e
           | Inr (alive, b3) \<Rightarrow> Inr (alive, b3, g2)))"
  using assms unfolding update_def next_cell_def Let_def by (simp add: last_elem_def)

lemma eat_or_shrink_pop:
  assumes "body (snake b) \<noteq> []" "np \<notin> set (apples b)"
  shows "eat_or_shrink k b np g =
     Inr (b\<lparr>snake := (snake b)\<lparr>body := tl (body (snake b))\<rparr>\<rparr>, g)"
  using assms by (cases "body (snake b)") (simp_all add: eat_or_shrink_def popleft_def)

lemma eat_or_shrink_eat:
  assumes "np \<in> set (apples b)"
  shows "eat_or_shrink k b np g =
     (case new_apple k (b\<lparr>apples := remove1 np (apples b)\<rparr>) g of
        Inl e \<Rightarrow> Inl e
      | Inr (b1, g1) \<Rightarrow> Inr (b1\<lparr>score := score b1 + 1\<rparr>, g1))"
  using assms by (simp add: eat_or_shrink_def list_remove_def)

lemma next_cell_not_head:
  "next_cell b d \<noteq> point (last (body (snake b)))"
  by (cases d) (auto simp: next_cell_def point_add_def dest: arg_cong[where f = x] arg_cong[where f = y])

lemma eat_or_shrink_error:
  assumes "eat_or_shrink k b np g = Inl e" "body (snake b) \<noteq> []"
  shows "e \<noteq> IndexError"
proof (cases "np \<in> set (apples b)")
  case True
  with assms(1) have "new_apple k (b\<lparr>apples := remove1 np (apples b)\<rparr>) g = Inl e"
    by (auto simp: eat_or_shrink_eat split: sum.splits)
  with new_apple_result[of "b\<lparr>apples := remove1 np (apples b)\<rparr>" k g] show ?thesis
    by (auto simp: apple_ok_def)
next
  case False
  with assms show ?thesis by (simp add: eat_or_shrink_pop)
qed

lemma eat_or_shrink_keeps:
  assumes "eat_or_shrink k b np g = Inr (b2, g2)" "body (snake b) \<noteq> []"
  shows "obstacles b2 = obstacles b \<and> width b2 = width b \<and> height b2 = height b \<and>
         body (snake b2) = (if np \<in> set (apples b) then body (snake b) else tl (body (snake b)))"
proof (cases "np \<in> set (apples b)")
  case True
  with assms(1) obtain b1 g1 where
    n: "new_apple k (b\<lparr>apples := remove1 np (apples b)\<rparr>) g = Inr (b1, g1)"
    and b2: "b2 = b1\<lparr>score := score b1 + 1\<rparr>"
    by (auto simp: eat_or_shrink_eat split: sum.splits)
  from new_apple_result[of "b\<lparr>apples := remove1 np (apples b)\<rparr>" k g] n b2 True
  show ?thesis by (auto simp: apple_ok_def)
next
  case False
  with assms show ?thesis by (auto simp: eat_or_shrink_pop)
qed

lemma move_head_dead:
  "np \<in> set (obstacles b2) \<or> np \<in> set (body_points (snake b2)) \<Longrightarrow>
   move_head b2 np d = Inr (False, b2)"
  by (simp add: move_head_def)

lemma move_head_alive:
  "\<not> (np \<in> set (obstacles b2) \<or> np \<in> set (body_points (snake b2))) \<Longrightarrow>
   move_head b2 np d =
     (if body (snake b2) = [] then Inl IndexError
      else Inr (True, b2\<lparr>snake := \<lparr>body = butlast (body (snake b2)) @
                  [(last (body (snake b2)))\<lparr>direction := d\<rparr>,
                   \<lparr>point = np, direction = d\<rparr>]\<rparr>\<rparr>))"
  by (simp add: move_head_def last_elem_def)

lemma update_after_steps:
  assumes "body (snake b) \<noteq> []" "\<not> opposite (direction (last (body (snake b)))) d"
    and "eat_or_shrink k b (next_cell b d) g = Inr (b2, g2)"
  shows "update k b d shifted g =
     (if next_cell b d \<in> set (obstacles b2) \<or> next_cell b d \<in> set (body_points (snake b2))
      then Inr (False, b2, g2)
      else if body (snake b2) = [] then Inl IndexError
      else Inr (True, b2\<lparr>snake := \<lparr>body = butlast (body (snake b2)) @
                  [(last (body (snake b2)))\<lparr>direction := d\<rparr>,
                   \<lparr>point = next_cell b d, direction = d\<rparr>]\<rparr>\<rparr>, g2))"
proof (cases "next_cell b d \<in> set (obstacles b2) \<or> next_cell b d \<in> set (body_points (snake b2))")
  case True
  then show ?thesis
    using assms by (simp add: update_steps move_head_dead)
next
  case False
  then show ?thesis
    using assms move_head_alive[OF False, of d] by (simp add: update_steps)
qed

subsection \<open>What a surviving apple move leaves\<close>

lemma update_apple_growth:
  assumes "\<not> opposite (direction (last (body (snake b)))) d"
    and "next_cell b d \<in> set (apples b)"
    and "update k b d shifted g = Inr (True, b', g')"
  shows "\<exists>p. b' = b\<lparr>snake := \<lparr>body = butlast (body (snake b)) @
                        [(last (body (snake b)))\<lparr>direction := d\<rparr>,
                         \<lparr>point = next_cell b d, direction = d\<rparr>]\<rparr>,
                    apples := remove1 (next_cell b d) (apples b) @ [p],
                    score := score b + 1\<rparr> \<and>
             within_borders b p \<and> p \<notin> set (obstacles b) \<and>
             p \<notin> set (remove1 (next_cell b d) (apples b)) \<and>
             p \<notin> set (body_points (snake b))"
proof -
  let ?b0 = "b\<lparr>apples := remove1 (next_cell b d) (apples b)\<rparr>"
  have ne: "body (snake b) \<noteq> []"
    using assms(3) update_empty[of b k d shifted g] by auto
  from assms(3) obtain b2 g2 where e: "eat_or_shrink k b (next_cell b d) g = Inr (b2, g2)"
    unfolding update_steps[OF ne assms(1)] by (auto split: sum.splits)
  with assms(2) obtain b1 where n: "new_apple k ?b0 g = Inr (b1, g2)"
    and b2: "b2 = b1\<lparr>score := score b1 + 1\<rparr>"
    by (auto simp: eat_or_shrink_eat split: sum.splits)
  from new_apple_result[of ?b0 k g] n obtain p where
    b1: "b1 = ?b0\<lparr>apples := apples ?b0 @ [p]\<rparr>" and p: "free_cell ?b0 p"
    by (auto simp: apple_ok_def)
  have bd: "body (snake b2) = body (snake b)" using b1 b2 by simp
  from assms(3) have "b' = b2\<lparr>snake := \<lparr>body = butlast (body (snake b2)) @
                  [(last (body (snake b2)))\<lparr>direction := d\<rparr>,
                   \<lparr>point = next_cell b d, direction = d\<rparr>]\<rparr>\<rparr>"
    unfolding update_after_steps[OF ne assms(1) e] by (simp split: if_splits)
  then have "b' = b\<lparr>snake := \<lparr>body = butlast (body (snake b)) @
                        [(last (body (snake b)))\<lparr>direction := d\<rparr>,
                         \<lparr>point = next_cell b d, direction = d\<rparr>]\<rparr>,
                    apples := remove1 (next_cell b d) (apples b) @ [p],
                    score := score b + 1\<rparr>"
    unfolding bd using b1 b2 by simp
  with p show ?thesis
    by (auto simp: free_cell_def collides_def within_borders_def)
qed

subsection \<open>Facts about the example boards\<close>

lemma init_snake_eq:
  "init_snake =
     \<lparr>body = [\<lparr>point = \<lparr>x = 1, y = 1\<rparr>, direction = RIGHT\<rparr>,
              \<lparr>point = \<lparr>x = 2, y = 1\<rparr>, direction = RIGHT\<rparr>,
              \<lparr>point = \<lparr>x = 3, y = 1\<rparr>, direction = RIGHT\<rparr>]\<rparr>"
  by (simp add: init_snake_def upto_rec1)

lemma new_apple_session_retry:
  "new_apple 1000 (session_board [\<lparr>x = 15, y = 10\<rparr>]) (15 ## 10 ## 7 ## 7 ## sconst 0) =
     Inr ((session_board [\<lparr>x = 15, y = 10\<rparr>])
            \<lparr>apples := [\<lparr>x = 15, y = 10\<rparr>, \<lparr>x = 7, y = 7\<rparr>]\<rparr>, sconst 0)"
  by (simp add: new_apple_step_pos cand_def collides_def in_walls session_board_def
      init_snake_body body_points_def)

lemma full_board_saturated: "saturated (full_board\<lparr>apples := []\<rparr>)"
  by (simp add: saturated_def full_board_def collides_def in_walls init_snake_body
      body_points_def upto_rec1)

lemma full_board_eat_fails:
  "eat_or_shrink k full_board \<lparr>x = 4, y = 1\<rparr> g = Inl RecursionError"
  using new_apple_saturated[OF full_board_saturated, of k g]
  by (simp add: eat_or_shrink_eat full_board_def)

lemma full_board_update_fails: "update k full_board RIGHT shifted g = Inl RecursionError"
  using full_board_eat_fails[of k g]
  by (simp add: update_steps full_board_def init_snake_body next_cell_def point_add_def)

lemma session_board_zero_draws:
  "\<forall>i<n. collides (session_board as) (cand (session_board as) (drop_pairs i (zero_draws n g)))"
proof (intro allI impI)
  fix i assume "i < n"
  then obtain m where "n - i = Suc m" by (cases "n - i") auto
  with \<open>i < n\<close> have "drop_pairs i (zero_draws n g) = 0 ## 0 ## zero_draws m g"
    by (simp add: drop_pairs_zero_draws)
  then show "collides (session_board as) (cand (session_board as) (drop_pairs i (zero_draws n g)))"
    by (simp add: cand_def collides_def session_board_def in_walls)
qed

lemma curled_board_eat:
  "eat_or_shrink 1000 curled_board \<lparr>x = 1, y = 1\<rparr> (15 ## 10 ## sconst 0) =
     Inr (curled_board\<lparr>apples := [\<lparr>x = 15, y = 10\<rparr>], score := 1\<rparr>, sconst 0)"
  by (simp add: eat_or_shrink_eat new_apple_step_pos cand_def collides_def in_walls
      curled_board_def curled_snake_def body_points_def)

section \<open>The claims\<close>

text \<open>
  C1. For every board whose snake is non-empty, \<^verbatim>\<open>update\<close> with a direction
  opposite to the head segment's stored direction returns true and leaves the whole
  board unchanged: body, score, apples, obstacles, width and height (and no random
  draw is consumed).
\<close>

theorem update_reversal_noop:
  assumes "body (snake b) \<noteq> []"
    and "opposite (direction (last (body (snake b)))) d"
  shows "update k b d shifted g = Inr (True, b, g)"
  using assms by (rule update_reversal)

theorem update_reversal_noop_witness:
  "body (snake (session_board [\<lparr>x = 15, y = 10\<rparr>])) \<noteq> [] \<and>
   opposite (direction (last (body (snake (session_board [\<lparr>x = 15, y = 10\<rparr>]))))) LEFT \<and>
   update 1000 (session_board [\<lparr>x = 15, y = 10\<rparr>]) LEFT False (sconst 0) =
     Inr (True, session_board [\<lparr>x = 15, y = 10\<rparr>], sconst 0)"
  using update_reversal_noop[where b = "session_board [\<lparr>x = 15, y = 10\<rparr>]" and d = LEFT
      and k = 1000 and shifted = False and g = "sconst 0"]
  by (simp add: session_board_def init_snake_body)

text \<open>
  C2, as stated: every non-reversal call returns false exactly when the next cell is
  an obstacle or a point of the body after the tail adjustment of steps 3/4. It fails
  where the replacement of the eaten apple does not return: on \<open>full_board\<close> the next
  cell is an obstacle (and an apple), every cell is taken once the apple is removed,
  every sample of the replacement is rejected and the call ends with RecursionError,
  whatever the depth, so it does not return false.
\<close>

theorem update_death_iff_counterexample:
  "body (snake full_board) \<noteq> [] \<and>
   \<not> opposite (direction (last (body (snake full_board)))) RIGHT \<and>
   next_cell full_board RIGHT \<in> set (obstacles full_board) \<and>
   update 1000 full_board RIGHT False (sconst 0) = Inl RecursionError"
  by (simp add: full_board_update_fails)
     (simp add: full_board_def init_snake_body next_cell_def point_add_def in_walls)

text \<open>
  C2, amended: for every non-reversal call whose steps 3/4 complete (they always do on
  a non-apple move, where they pop the tail; on an apple move they do when the
  placement of the replacement apple returns), the call returns false if and only if
  the next cell is an obstacle or a point of the body as steps 3/4 left it; the board
  that steps 3/4 left is then the final state, no head appended. A non-apple move into
  an obstacle-free cell that is the point of the popped tail and of no other segment
  returns true.
\<close>

theorem update_death_iff:
  assumes "body (snake b) \<noteq> []"
    and "\<not> opposite (direction (last (body (snake b)))) d"
  shows
   "(next_cell b d \<notin> set (apples b) \<longrightarrow>
       eat_or_shrink k b (next_cell b d) g =
         Inr (b\<lparr>snake := \<lparr>body = tl (body (snake b))\<rparr>\<rparr>, g)) \<and>
    (\<forall>b2 g2. eat_or_shrink k b (next_cell b d) g = Inr (b2, g2) \<longrightarrow>
       body (snake b2) =
         (if next_cell b d \<in> set (apples b) then body (snake b) else tl (body (snake b))) \<and>
       obstacles b2 = obstacles b \<and>
       (update k b d shifted g = Inr (False, b2, g2) \<longleftrightarrow>
          next_cell b d \<in> set (obstacles b) \<or> next_cell b d \<in> set (body_points (snake b2))) \<and>
       (\<forall>b' g'. update k b d shifted g = Inr (False, b', g') \<longrightarrow> b' = b2 \<and> g' = g2)) \<and>
    (next_cell b d \<notin> set (apples b) \<and> next_cell b d \<notin> set (obstacles b) \<and>
     next_cell b d = point (hd (body (snake b))) \<and>
     next_cell b d \<notin> set (map point (tl (body (snake b))))
       \<longrightarrow> (\<exists>b'. update k b d shifted g = Inr (True, b', g)))"
proof (intro conjI allI impI)
  assume "next_cell b d \<notin> set (apples b)"
  then show "eat_or_shrink k b (next_cell b d) g =
         Inr (b\<lparr>snake := \<lparr>body = tl (body (snake b))\<rparr>\<rparr>, g)"
    using assms(1) by (simp add: eat_or_shrink_pop)
next
  fix b2 g2 assume e: "eat_or_shrink k b (next_cell b d) g = Inr (b2, g2)"
  from eat_or_shrink_keeps[OF e assms(1)]
  show "body (snake b2) =
         (if next_cell b d \<in> set (apples b) then body (snake b) else tl (body (snake b)))"
    and o: "obstacles b2 = obstacles b"
    by simp_all
  note u = update_after_steps[OF assms e, of shifted]
  show "update k b d shifted g = Inr (False, b2, g2) \<longleftrightarrow>
          next_cell b d \<in> set (obstacles b) \<or> next_cell b d \<in> set (body_points (snake b2))"
    unfolding u o[symmetric] by simp
  fix b' g' assume "update k b d shifted g = Inr (False, b', g')"
  then show "b' = b2" "g' = g2"
    unfolding u by (simp_all split: if_splits)
next
  assume a: "next_cell b d \<notin> set (apples b) \<and> next_cell b d \<notin> set (obstacles b) \<and>
     next_cell b d = point (hd (body (snake b))) \<and>
     next_cell b d \<notin> set (map point (tl (body (snake b))))"
  have "hd (body (snake b)) \<noteq> last (body (snake b))"
    using a next_cell_not_head[of b d] by auto
  then have ne2: "tl (body (snake b)) \<noteq> []"
    using assms(1) by (cases "body (snake b)") (auto split: if_splits)
  from a have na: "next_cell b d \<notin> set (apples b)"
    and no: "next_cell b d \<notin> set (obstacles b)"
    and nb: "next_cell b d \<notin> set (map point (tl (body (snake b))))"
    by blast+
  have e: "eat_or_shrink k b (next_cell b d) g =
      Inr (b\<lparr>snake := (snake b)\<lparr>body := tl (body (snake b))\<rparr>\<rparr>, g)"
    by (rule eat_or_shrink_pop[OF assms(1) na])
  from no nb ne2 show "\<exists>b'. update k b d shifted g = Inr (True, b', g)"
    unfolding update_after_steps[OF assms e] by (simp add: body_points_def)
qed

theorem update_death_iff_witness:
  "body (snake (session_board [\<lparr>x = 15, y = 10\<rparr>])) \<noteq> [] \<and>
   \<not> opposite (direction (last (body (snake (session_board [\<lparr>x = 15, y = 10\<rparr>]))))) UP \<and>
   next_cell (session_board [\<lparr>x = 15, y = 10\<rparr>]) UP
     \<notin> set (apples (session_board [\<lparr>x = 15, y = 10\<rparr>])) \<and>
   next_cell (session_board [\<lparr>x = 15, y = 10\<rparr>]) UP
     \<in> set (obstacles (session_board [\<lparr>x = 15, y = 10\<rparr>])) \<and>
   update 1000 (session_board [\<lparr>x = 15, y = 10\<rparr>]) UP False (sconst 0) =
     Inr (False,
       (session_board [\<lparr>x = 15, y = 10\<rparr>])
         \<lparr>snake := \<lparr>body = [\<lparr>point = \<lparr>x = 2, y = 1\<rparr>, direction = RIGHT\<rparr>,
                            \<lparr>point = \<lparr>x = 3, y = 1\<rparr>, direction = RIGHT\<rparr>]\<rparr>\<rparr>, sconst 0) \<and>
   next_cell (curled_board\<lparr>apples := [\<lparr>x = 15, y = 10\<rparr>]\<rparr>) UP =
     point (hd (body (snake (curled_board\<lparr>apples := [\<lparr>x = 15, y = 10\<rparr>]\<rparr>)))) \<and>
   (\<exists>b'. update 1000 (curled_board\<lparr>apples := [\<lparr>x = 15, y = 10\<rparr>]\<rparr>) UP False (sconst 0) =
           Inr (True, b', sconst 0))"
proof -
  let ?B = "session_board [\<lparr>x = 15, y = 10\<rparr>]"
  let ?B2 = "?B\<lparr>snake := \<lparr>body = tl (body (snake ?B))\<rparr>\<rparr>"
  have ne: "body (snake ?B) \<noteq> []"
    by (simp add: session_board_def init_snake_eq)
  have nr: "\<not> opposite (direction (last (body (snake ?B)))) UP"
    by (simp add: session_board_def init_snake_eq)
  have na: "next_cell ?B UP \<notin> set (apples ?B)"
    by (simp add: session_board_def init_snake_eq next_cell_def point_add_def)
  have no: "next_cell ?B UP \<in> set (obstacles ?B)"
    by (simp add: session_board_def init_snake_eq next_cell_def point_add_def in_walls)
  note t = update_death_iff[OF ne nr, where k = 1000 and g = "sconst 0" and shifted = False]
  from t na have e: "eat_or_shrink 1000 ?B (next_cell ?B UP) (sconst 0) = Inr (?B2, sconst 0)"
    by blast
  from t e no have u: "update 1000 ?B UP False (sconst 0) = Inr (False, ?B2, sconst 0)"
    by blast
  let ?C = "curled_board\<lparr>apples := [\<lparr>x = 15, y = 10\<rparr>]\<rparr>"
  have cne: "body (snake ?C) \<noteq> []"
    and cnr: "\<not> opposite (direction (last (body (snake ?C)))) UP"
    by (simp_all add: curled_board_def curled_snake_def)
  have c: "next_cell ?C UP \<notin> set (apples ?C) \<and> next_cell ?C UP \<notin> set (obstacles ?C) \<and>
      next_cell ?C UP = point (hd (body (snake ?C))) \<and>
      next_cell ?C UP \<notin> set (map point (tl (body (snake ?C))))"
    by (simp add: curled_board_def curled_snake_def next_cell_def point_add_def in_walls)
  from update_death_iff[OF cne cnr, where k = 1000 and g = "sconst 0" and shifted = False] c
  have cu: "\<exists>b'. update 1000 ?C UP False (sconst 0) = Inr (True, b', sconst 0)"
    by blast
  show ?thesis
    using ne nr na no u c cu by (simp add: session_board_def init_snake_eq)
qed

text \<open>
  C3. On a surviving apple move the snake grows by one segment, the score grows by
  one, the first occurrence of the eaten apple is removed and one apple is appended
  that is no obstacle, no remaining apple and no point of the body before the move
  (lemma \<open>update_apple_growth\<close>). But the replacement is placed before the new head
  is appended and after the eaten apple is removed, so the cell of the new head is
  accepted: on the 30 x 20 board with the starting snake and the apple at (4,1), when
  the generator draws 4 and 1, the apple list after \<^verbatim>\<open>update(RIGHT, _)\<close> is
  again [(4,1)], under the new head.
\<close>

theorem update_apple_under_head:
  "update 1000 (session_board [\<lparr>x = 4, y = 1\<rparr>]) RIGHT False (4 ## 1 ## sconst 0) =
     Inr (True,
       \<lparr>width = 30, height = 20, obstacles = walls 20 30,
        snake = \<lparr>body = [\<lparr>point = \<lparr>x = 1, y = 1\<rparr>, direction = RIGHT\<rparr>,
                         \<lparr>point = \<lparr>x = 2, y = 1\<rparr>, direction = RIGHT\<rparr>,
                         \<lparr>point = \<lparr>x = 3, y = 1\<rparr>, direction = RIGHT\<rparr>,
                         \<lparr>point = \<lparr>x = 4, y = 1\<rparr>, direction = RIGHT\<rparr>]\<rparr>,
        apples = [\<lparr>x = 4, y = 1\<rparr>], score = 1\<rparr>, sconst 0)"
proof -
  let ?B = "session_board [\<lparr>x = 4, y = 1\<rparr>]"
  have n: "next_cell ?B RIGHT = \<lparr>x = 4, y = 1\<rparr>"
    by (simp add: next_cell_def point_add_def session_board_def init_snake_eq)
  have ne: "body (snake ?B) \<noteq> []"
    and nr: "\<not> opposite (direction (last (body (snake ?B)))) RIGHT"
    by (simp_all add: session_board_def init_snake_eq)
  have e: "eat_or_shrink 1000 ?B (next_cell ?B RIGHT) (4 ## 1 ## sconst 0) =
     Inr (?B\<lparr>score := 1\<rparr>, sconst 0)"
    unfolding n
    by (simp add: eat_or_shrink_eat new_apple_step_pos cand_def collides_def in_walls
      session_board_def init_snake_eq body_points_def)
  show ?thesis
    unfolding update_after_steps[OF ne nr e] n
    by (simp add: session_board_def init_snake_eq body_points_def in_walls)
qed

text \<open>
  C4. For every non-reversal call of \<^verbatim>\<open>update\<close> that returns true and whose next
  cell is not an apple, the tail segment is removed, the previous head keeps its point
  and gets the input direction, and a new head at the next cell facing the input
  direction is appended; the length of the snake, the score and every other field are
  unchanged, and no random draw is consumed. In particular, on a 30 x 20 board with
  snake [(1,1,RIGHT),(2,1,RIGHT),(3,1,RIGHT)] and the apple at (15,10), whatever the
  obstacles as long as (4,1) is none, \<^verbatim>\<open>update(RIGHT, _)\<close> returns true with the
  snake [(2,1,RIGHT),(3,1,RIGHT),(4,1,RIGHT)].
\<close>

theorem update_plain_move:
  "(\<not> opposite (direction (last (body (snake b)))) d \<and> next_cell b d \<notin> set (apples b) \<and>
    update k b d shifted g = Inr (True, b', g')
    \<longrightarrow> b' = b\<lparr>snake := \<lparr>body = tl (butlast (body (snake b))) @
                     [(last (body (snake b)))\<lparr>direction := d\<rparr>,
                      \<lparr>point = next_cell b d, direction = d\<rparr>]\<rparr>\<rparr> \<and>
        g' = g \<and>
        length (body (snake b')) = length (body (snake b)) \<and>
        score b' = score b) \<and>
   (\<lparr>x = 4, y = 1\<rparr> \<notin> set obs
    \<longrightarrow> update k \<lparr>width = 30, height = 20, obstacles = obs,
                 snake = \<lparr>body = [\<lparr>point = \<lparr>x = 1, y = 1\<rparr>, direction = RIGHT\<rparr>,
                                  \<lparr>point = \<lparr>x = 2, y = 1\<rparr>, direction = RIGHT\<rparr>,
                                  \<lparr>point = \<lparr>x = 3, y = 1\<rparr>, direction = RIGHT\<rparr>]\<rparr>,
                 apples = [\<lparr>x = 15, y = 10\<rparr>], score = sc\<rparr> RIGHT shifted g =
        Inr (True,
          \<lparr>width = 30, height = 20, obstacles = obs,
           snake = \<lparr>body = [\<lparr>point = \<lparr>x = 2, y = 1\<rparr>, direction = RIGHT\<rparr>,
                            \<lparr>point = \<lparr>x = 3, y = 1\<rparr>, direction = RIGHT\<rparr>,
                            \<lparr>point = \<lparr>x = 4, y = 1\<rparr>, direction = RIGHT\<rparr>]\<rparr>,
           apples = [\<lparr>x = 15, y = 10\<rparr>], score = sc\<rparr>, g))"
proof (rule conjI; rule impI)
  assume a: "\<not> opposite (direction (last (body (snake b)))) d \<and>
    next_cell b d \<notin> set (apples b) \<and> update k b d shifted g = Inr (True, b', g')"
  then have ne: "body (snake b) \<noteq> []"
    using update_empty[of b k d shifted g] by auto
  let ?b2 = "b\<lparr>snake := (snake b)\<lparr>body := tl (body (snake b))\<rparr>\<rparr>"
  from a ne have m: "move_head ?b2 (next_cell b d) d = Inr (True, b')" and g: "g' = g"
    by (auto simp: update_steps eat_or_shrink_pop split: sum.splits)
  from m have ne2: "tl (body (snake b)) \<noteq> []"
    by (auto simp: move_head_def last_elem_def split: if_splits)
  then have l: "last (tl (body (snake b))) = last (body (snake b))"
    and bl: "butlast (tl (body (snake b))) = tl (butlast (body (snake b)))"
    by (cases "body (snake b)"; simp)+
  from m ne2 have b': "b' = b\<lparr>snake := \<lparr>body = tl (butlast (body (snake b))) @
                     [(last (body (snake b)))\<lparr>direction := d\<rparr>,
                      \<lparr>point = next_cell b d, direction = d\<rparr>]\<rparr>\<rparr>"
    by (auto simp: move_head_def last_elem_def l bl split: if_splits)
  from ne2 have len: "length (tl (butlast (body (snake b)))) + 2 = length (body (snake b))"
    by (cases "body (snake b)") auto
  show "b' = b\<lparr>snake := \<lparr>body = tl (butlast (body (snake b))) @
                     [(last (body (snake b)))\<lparr>direction := d\<rparr>,
                      \<lparr>point = next_cell b d, direction = d\<rparr>]\<rparr>\<rparr> \<and>
        g' = g \<and>
        length (body (snake b')) = length (body (snake b)) \<and>
        score b' = score b"
    using b' g len by simp
next
  assume "\<lparr>x = 4, y = 1\<rparr> \<notin> set obs"
  then show "update k \<lparr>width = 30, height = 20, obstacles = obs,
                 snake = \<lparr>body = [\<lparr>point = \<lparr>x = 1, y = 1\<rparr>, direction = RIGHT\<rparr>,
                                  \<lparr>point = \<lparr>x = 2, y = 1\<rparr>, direction = RIGHT\<rparr>,
                                  \<lparr>point = \<lparr>x = 3, y = 1\<rparr>, direction = RIGHT\<rparr>]\<rparr>,
                 apples = [\<lparr>x = 15, y = 10\<rparr>], score = sc\<rparr> RIGHT shifted g =
        Inr (True,
          \<lparr>width = 30, height = 20, obstacles = obs,
           snake = \<lparr>body = [\<lparr>point = \<lparr>x = 2, y = 1\<rparr>, direction = RIGHT\<rparr>,
                            \<lparr>point = \<lparr>x = 3, y = 1\<rparr>, direction = RIGHT\<rparr>,
                            \<lparr>point = \<lparr>x = 4, y = 1\<rparr>, direction = RIGHT\<rparr>]\<rparr>,
           apples = [\<lparr>x = 15, y = 10\<rparr>], score = sc\<rparr>, g)"
    by (simp add: update_steps eat_or_shrink_pop next_cell_def point_add_def move_head_def
        last_elem_def body_points_def)
qed

theorem update_plain_move_witness:
  "\<not> opposite (direction (last (body (snake (session_board [\<lparr>x = 15, y = 10\<rparr>]))))) DOWN \<and>
   next_cell (session_board [\<lparr>x = 15, y = 10\<rparr>]) DOWN
     \<notin> set (apples (session_board [\<lparr>x = 15, y = 10\<rparr>])) \<and>
   update 1000 (session_board [\<lparr>x = 15, y = 10\<rparr>]) DOWN False (sconst 0) =
     Inr (True,
       (session_board [\<lparr>x = 15, y = 10\<rparr>])
         \<lparr>snake := \<lparr>body = [\<lparr>point = \<lparr>x = 2, y = 1\<rparr>, direction = RIGHT\<rparr>,
                            \<lparr>point = \<lparr>x = 3, y = 1\<rparr>, direction = DOWN\<rparr>,
                            \<lparr>point = \<lparr>x = 3, y = 2\<rparr>, direction = DOWN\<rparr>]\<rparr>\<rparr>, sconst 0) \<and>
   \<lparr>x = 4, y = 1\<rparr> \<notin> set (walls 20 30) \<and>
   update 1000 (session_board [\<lparr>x = 15, y = 10\<rparr>]) RIGHT False (sconst 0) =
     Inr (True,
       (session_board [\<lparr>x = 15, y = 10\<rparr>])
         \<lparr>snake := \<lparr>body = [\<lparr>point = \<lparr>x = 2, y = 1\<rparr>, direction = RIGHT\<rparr>,
                            \<lparr>point = \<lparr>x = 3, y = 1\<rparr>, direction = RIGHT\<rparr>,
                            \<lparr>point = \<lparr>x = 4, y = 1\<rparr>, direction = RIGHT\<rparr>]\<rparr>\<rparr>, sconst 0)"
proof -
  have u: "update 1000 (session_board [\<lparr>x = 15, y = 10\<rparr>]) DOWN False (sconst 0) =
     Inr (True,
       (session_board [\<lparr>x = 15, y = 10\<rparr>])
         \<lparr>snake := \<lparr>body = [\<lparr>point = \<lparr>x = 2, y = 1\<rparr>, direction = RIGHT\<rparr>,
                            \<lparr>point = \<lparr>x = 3, y = 1\<rparr>, direction = DOWN\<rparr>,
                            \<lparr>point = \<lparr>x = 3, y = 2\<rparr>, direction = DOWN\<rparr>]\<rparr>\<rparr>, sconst 0)"
    by (simp add: update_steps eat_or_shrink_pop next_cell_def point_add_def move_head_def
        last_elem_def body_points_def session_board_def init_snake_body in_walls)
  have w: "\<lparr>x = 4, y = 1\<rparr> \<notin> set (walls 20 30)" by (simp add: in_walls)
  show ?thesis
    using u w
      update_plain_move[where b = "session_board [\<lparr>x = 15, y = 10\<rparr>]" and d = DOWN
        and k = 1000 and shifted = False and g = "sconst 0" and obs = "walls 20 30" and sc = 0]
    by (simp add: session_board_def init_snake_eq next_cell_def point_add_def)
qed

text \<open>
  C5. Every call of \<^verbatim>\<open>new_apple\<close> that returns has appended exactly one point to
  the apples and changed no other field; the point lies in
  \<open>[0,width) x [0,height)\<close> and is no obstacle, no apple and no body point of the
  board at call time.
\<close>

theorem new_apple_placement:
  assumes "new_apple k b g = Inr (b', g')"
  shows "\<exists>p. b' = b\<lparr>apples := apples b @ [p]\<rparr> \<and> within_borders b p \<and>
             p \<notin> set (obstacles b) \<and> p \<notin> set (apples b) \<and>
             p \<notin> set (body_points (snake b))"
  using new_apple_result[of b k g] assms
  by (auto simp: apple_ok_def free_cell_def collides_def)

theorem new_apple_placement_witness:
  "new_apple 1000 (session_board [\<lparr>x = 15, y = 10\<rparr>]) (15 ## 10 ## 7 ## 7 ## sconst 0) =
     Inr ((session_board [\<lparr>x = 15, y = 10\<rparr>])
                  \<lparr>apples := [\<lparr>x = 15, y = 10\<rparr>, \<lparr>x = 7, y = 7\<rparr>]\<rparr>, sconst 0) \<and>
   (\<exists>p. (session_board [\<lparr>x = 15, y = 10\<rparr>])\<lparr>apples := [\<lparr>x = 15, y = 10\<rparr>, \<lparr>x = 7, y = 7\<rparr>]\<rparr> =
          (session_board [\<lparr>x = 15, y = 10\<rparr>])
            \<lparr>apples := apples (session_board [\<lparr>x = 15, y = 10\<rparr>]) @ [p]\<rparr> \<and>
        within_borders (session_board [\<lparr>x = 15, y = 10\<rparr>]) p \<and>
        p \<notin> set (obstacles (session_board [\<lparr>x = 15, y = 10\<rparr>])) \<and>
        p \<notin> set (apples (session_board [\<lparr>x = 15, y = 10\<rparr>])) \<and>
        p \<notin> set (body_points (snake (session_board [\<lparr>x = 15, y = 10\<rparr>]))))"
  using new_apple_placement[OF new_apple_session_retry] new_apple_session_retry
  by simp

text \<open>
  C6. \<^verbatim>\<open>Game.init(height, width)\<close>, whatever the state of the game before (so
  also on a replay), leaves a board with the snake [(1,1,RIGHT),(2,1,RIGHT),(3,1,RIGHT)],
  tail first, with exactly the cells of the first and last row and column of the grid
  as obstacles, the single apple (width div 2, height div 2) and the score 0. It holds
  for all integers, in particular for positive height and width.
\<close>

theorem init_fresh_board:
  "\<exists>bd. board (init self h w) = Some bd \<and> width bd = w \<and> height bd = h \<and>
     body (snake bd) =
       [\<lparr>point = \<lparr>x = 1, y = 1\<rparr>, direction = RIGHT\<rparr>,
        \<lparr>point = \<lparr>x = 2, y = 1\<rparr>, direction = RIGHT\<rparr>,
        \<lparr>point = \<lparr>x = 3, y = 1\<rparr>, direction = RIGHT\<rparr>] \<and>
     set (obstacles bd) =
       {p. within_borders bd p \<and> (x p = 0 \<or> x p = w - 1 \<or> y p = 0 \<or> y p = h - 1)} \<and>
     apples bd = [\<lparr>x = w div 2, y = h div 2\<rparr>] \<and>
     score bd = 0"
  by (auto simp: init_def init_snake_body in_walls within_borders_def)

theorem init_fresh_board_witness:
  "board (init \<lparr>replay = True, board = Some ((session_board [])\<lparr>score := 5\<rparr>)\<rparr> 20 30) =
     Some (session_board [\<lparr>x = 15, y = 10\<rparr>]) \<and>
   score (session_board [\<lparr>x = 15, y = 10\<rparr>]) = 0 \<and>
   \<lparr>x = 29, y = 7\<rparr> \<in> set (obstacles (session_board [\<lparr>x = 15, y = 10\<rparr>])) \<and>
   \<lparr>x = 28, y = 7\<rparr> \<notin> set (obstacles (session_board [\<lparr>x = 15, y = 10\<rparr>]))"
  using init_fresh_board[of "\<lparr>replay = True, board = Some ((session_board [])\<lparr>score := 5\<rparr>)\<rparr>" 20 30]
  by (auto simp: init_def session_board_def within_borders_def)

text \<open>
  C7, as stated: on a board whose every grid point is taken \<^verbatim>\<open>new_apple\<close> never
  terminates, the recursion going on forever, and with a free cell it terminates for
  any random sequence that eventually yields one. Both fail at the recursion limit of
  the interpreter. On the 5 x 3 board filled by its walls and the snake every sample
  is rejected and the call ends with RecursionError. On the 30 x 20 board, a stream
  that yields the wall cell (0,0) a thousand times and then the free cell (7,7) ends
  with RecursionError as well when a thousand activations are admitted.
\<close>

theorem new_apple_recursion_limit_counterexample:
  "saturated (full_board\<lparr>apples := []\<rparr>) \<and>
   0 < width (full_board\<lparr>apples := []\<rparr>) \<and> 0 < height (full_board\<lparr>apples := []\<rparr>) \<and>
   new_apple 1000 (full_board\<lparr>apples := []\<rparr>) (sconst 0) = Inl RecursionError \<and>
   free_cell (session_board [\<lparr>x = 15, y = 10\<rparr>])
     (cand (session_board [\<lparr>x = 15, y = 10\<rparr>])
        (drop_pairs 1000 (zero_draws 1000 (7 ## 7 ## sconst 0)))) \<and>
   new_apple 1000 (session_board [\<lparr>x = 15, y = 10\<rparr>]) (zero_draws 1000 (7 ## 7 ## sconst 0)) =
     Inl RecursionError"
proof -
  let ?S = "session_board [\<lparr>x = 15, y = 10\<rparr>]"
  have p: "0 < width (full_board\<lparr>apples := []\<rparr>)" "0 < height (full_board\<lparr>apples := []\<rparr>)"
    by (simp_all add: full_board_def)
  have f: "free_cell ?S (cand ?S (drop_pairs 1000 (zero_draws 1000 (7 ## 7 ## sconst 0))))"
    by (simp add: drop_pairs_zero_draws cand_def collides_def free_cell_def within_borders_def
        session_board_def in_walls init_snake_body body_points_def)
  have q: "0 < width ?S" "0 < height ?S"
    by (simp_all add: session_board_def)
  have r: "new_apple 1000 ?S (zero_draws 1000 (7 ## 7 ## sconst 0)) = Inl RecursionError"
    by (rule new_apple_exhausted[OF q session_board_zero_draws])
  show ?thesis
    using p f r full_board_saturated new_apple_saturated[OF full_board_saturated p]
    by simp
qed

text \<open>
  C7, amended: \<^verbatim>\<open>new_apple\<close> retries by recursion with no cap of its own; the
  depth the interpreter admits is the only bound. On a board with cells whose every
  grid point is an obstacle, an apple or a body point it never returns: whatever the
  random stream and the depth, every sampled candidate is rejected and the call ends
  with RecursionError when the depth is used up. When the stream yields a free cell
  after \<open>n\<close> rejected samples, the call returns that cell appended, after exactly
  \<open>n\<close> retries, if \<open>n\<close> is below the depth, and raises RecursionError otherwise.
\<close>

theorem new_apple_retry:
  "(saturated b \<and> 0 < width b \<and> 0 < height b \<longrightarrow>
      new_apple k b g = Inl RecursionError \<and>
      (\<forall>i. collides b (cand b (drop_pairs i g)))) \<and>
   ((\<forall>i<n. collides b (cand b (drop_pairs i g))) \<and> free_cell b (cand b (drop_pairs n g)) \<longrightarrow>
      new_apple k b g =
        (if n < k
         then Inr (b\<lparr>apples := apples b @ [cand b (drop_pairs n g)]\<rparr>, drop_pairs (Suc n) g)
         else Inl RecursionError))"
proof (rule conjI; rule impI)
  assume s: "saturated b \<and> 0 < width b \<and> 0 < height b"
  then have "new_apple k b g = Inl RecursionError"
    by (simp add: new_apple_saturated)
  moreover have "\<forall>i. collides b (cand b (drop_pairs i g))"
    using s by (simp add: saturated_rejects)
  ultimately show "new_apple k b g = Inl RecursionError \<and>
      (\<forall>i. collides b (cand b (drop_pairs i g)))"
    by simp
next
  assume f: "(\<forall>i<n. collides b (cand b (drop_pairs i g))) \<and>
    free_cell b (cand b (drop_pairs n g))"
  then have pos: "0 < width b" "0 < height b"
    using within_borders_positive by (auto simp: free_cell_def)
  from f have rej: "\<forall>i<n. collides b (cand b (drop_pairs i g))"
    and free: "\<not> collides b (cand b (drop_pairs n g))"
    by (simp_all add: free_cell_def)
  show "new_apple k b g =
        (if n < k
         then Inr (b\<lparr>apples := apples b @ [cand b (drop_pairs n g)]\<rparr>, drop_pairs (Suc n) g)
         else Inl RecursionError)"
  proof (cases "n < k")
    case True
    then show ?thesis
      using new_apple_first_free[OF pos rej free] by simp
  next
    case False
    then have "\<forall>i<k. collides b (cand b (drop_pairs i g))"
      using rej by simp
    then have "new_apple k b g = Inl RecursionError"
      by (rule new_apple_exhausted[OF pos])
    with False show ?thesis by simp
  qed
qed

theorem new_apple_retry_witness:
  "saturated (full_board\<lparr>apples := []\<rparr>) \<and> 0 < width (full_board\<lparr>apples := []\<rparr>) \<and>
   0 < height (full_board\<lparr>apples := []\<rparr>) \<and>
   new_apple 1000 (full_board\<lparr>apples := []\<rparr>) (sconst 0) = Inl RecursionError \<and>
   collides (session_board [\<lparr>x = 15, y = 10\<rparr>])
     (cand (session_board [\<lparr>x = 15, y = 10\<rparr>]) (drop_pairs 0 (15 ## 10 ## 7 ## 7 ## sconst 0))) \<and>
   free_cell (session_board [\<lparr>x = 15, y = 10\<rparr>])
     (cand (session_board [\<lparr>x = 15, y = 10\<rparr>]) (drop_pairs (Suc 0) (15 ## 10 ## 7 ## 7 ## sconst 0))) \<and>
   new_apple 1000 (session_board [\<lparr>x = 15, y = 10\<rparr>]) (15 ## 10 ## 7 ## 7 ## sconst 0) =
     Inr ((session_board [\<lparr>x = 15, y = 10\<rparr>])
            \<lparr>apples := [\<lparr>x = 15, y = 10\<rparr>, \<lparr>x = 7, y = 7\<rparr>]\<rparr>, sconst 0) \<and>
   new_apple (Suc 0) (session_board [\<lparr>x = 15, y = 10\<rparr>]) (15 ## 10 ## 7 ## 7 ## sconst 0) =
     Inl RecursionError"
proof -
  have c: "collides (session_board [\<lparr>x = 15, y = 10\<rparr>])
     (cand (session_board [\<lparr>x = 15, y = 10\<rparr>]) (drop_pairs 0 (15 ## 10 ## 7 ## 7 ## sconst 0)))"
    by (simp add: cand_def collides_def session_board_def)
  have f: "free_cell (session_board [\<lparr>x = 15, y = 10\<rparr>])
     (cand (session_board [\<lparr>x = 15, y = 10\<rparr>]) (drop_pairs (Suc 0) (15 ## 10 ## 7 ## 7 ## sconst 0)))"
    by (simp add: cand_def collides_def free_cell_def within_borders_def session_board_def
        in_walls init_snake_body body_points_def)
  have p: "0 < width (full_board\<lparr>apples := []\<rparr>) \<and> 0 < height (full_board\<lparr>apples := []\<rparr>)"
    by (simp add: full_board_def)
  show ?thesis
    using c f p full_board_saturated
      new_apple_retry[where b = "full_board\<lparr>apples := []\<rparr>" and g = "sconst 0" and k = 1000]
      new_apple_retry[where b = "session_board [\<lparr>x = 15, y = 10\<rparr>]" and n = "Suc 0"
        and g = "15 ## 10 ## 7 ## 7 ## sconst 0" and k = 1000]
      new_apple_retry[where b = "session_board [\<lparr>x = 15, y = 10\<rparr>]" and n = "Suc 0"
        and g = "15 ## 10 ## 7 ## 7 ## sconst 0" and k = "Suc 0"]
    by (simp add: cand_def session_board_def)
qed

text \<open>
  C8, as stated: \<^verbatim>\<open>update\<close> either commits a move or reports death with no
  partial effect, and where the next cell is both an apple and a death cell it returns
  false. On \<open>curled_board\<close> the next cell is the tail, with an apple under it: the
  call returns false after the apple is replaced and the score incremented. On
  \<open>full_board\<close> the replacement never returns (it ends with RecursionError), and
  neither does the call.
\<close>

theorem update_dying_apple_move_counterexample:
  "next_cell curled_board UP \<in> set (apples curled_board) \<and>
   next_cell curled_board UP \<in> set (body_points (snake curled_board)) \<and>
   score curled_board = 0 \<and> apples curled_board = [\<lparr>x = 1, y = 1\<rparr>] \<and>
   update 1000 curled_board UP False (15 ## 10 ## sconst 0) =
     Inr (False, curled_board\<lparr>apples := [\<lparr>x = 15, y = 10\<rparr>], score := 1\<rparr>, sconst 0) \<and>
   next_cell full_board RIGHT \<in> set (apples full_board) \<and>
   next_cell full_board RIGHT \<in> set (obstacles full_board) \<and>
   update 1000 full_board RIGHT True (sconst 7) = Inl RecursionError"
proof -
  have n: "next_cell curled_board UP = \<lparr>x = 1, y = 1\<rparr>"
    by (simp add: next_cell_def point_add_def curled_board_def curled_snake_def)
  have ne: "body (snake curled_board) \<noteq> []"
    and nr: "\<not> opposite (direction (last (body (snake curled_board)))) UP"
    by (simp_all add: curled_board_def curled_snake_def)
  have u: "update 1000 curled_board UP False (15 ## 10 ## sconst 0) =
     Inr (False, curled_board\<lparr>apples := [\<lparr>x = 15, y = 10\<rparr>], score := 1\<rparr>, sconst 0)"
    unfolding update_after_steps[OF ne nr curled_board_eat[folded n]]
    by (simp add: n) (simp add: curled_board_def curled_snake_def body_points_def)
  have f: "next_cell full_board RIGHT \<in> set (apples full_board) \<and>
      next_cell full_board RIGHT \<in> set (obstacles full_board)"
    by (simp add: full_board_def init_snake_body next_cell_def point_add_def in_walls)
  show ?thesis
    using n u f full_board_update_fails[of 1000 True "sconst 7"]
    by (simp add: curled_board_def curled_snake_def body_points_def)
qed

text \<open>
  C8, amended: death is reported after steps 3/4 have taken effect. Where the next
  cell of a non-reversal call is both an apple and a death cell, the call does what
  the placement of the replacement apple does: it raises with it,
  and when the placement returns, the call returns false and the board differs from
  the one before the call by exactly the effects of step 3: the first occurrence of
  the eaten apple removed, one free cell appended to the apples, the score
  incremented; the snake (no head appended, no direction rewritten), the obstacles,
  the width and the height are unchanged.
\<close>

theorem update_dying_apple_move:
  assumes "body (snake b) \<noteq> []"
    and "\<not> opposite (direction (last (body (snake b)))) d"
    and "next_cell b d \<in> set (apples b)"
    and "next_cell b d \<in> set (obstacles b) \<or> next_cell b d \<in> set (body_points (snake b))"
  shows
   "update k b d shifted g =
      (case new_apple k (b\<lparr>apples := remove1 (next_cell b d) (apples b)\<rparr>) g of
         Inl e \<Rightarrow> Inl e
       | Inr (b1, g1) \<Rightarrow> Inr (False, b1\<lparr>score := score b + 1\<rparr>, g1)) \<and>
    (\<forall>b1 g1. new_apple k (b\<lparr>apples := remove1 (next_cell b d) (apples b)\<rparr>) g = Inr (b1, g1)
       \<longrightarrow> update k b d shifted g = Inr (False, b1\<lparr>score := score b + 1\<rparr>, g1) \<and>
           (\<exists>p. b1\<lparr>score := score b + 1\<rparr> =
                  b\<lparr>apples := remove1 (next_cell b d) (apples b) @ [p], score := score b + 1\<rparr> \<and>
                within_borders b p \<and> p \<notin> set (obstacles b) \<and>
                p \<notin> set (remove1 (next_cell b d) (apples b)) \<and>
                p \<notin> set (body_points (snake b))))"
proof -
  let ?b0 = "b\<lparr>apples := remove1 (next_cell b d) (apples b)\<rparr>"
  have step: "new_apple k ?b0 g = Inr (b1, g1) \<Longrightarrow>
      update k b d shifted g = Inr (False, b1\<lparr>score := score b + 1\<rparr>, g1) \<and>
      (\<exists>p. b1\<lparr>score := score b + 1\<rparr> =
                  b\<lparr>apples := remove1 (next_cell b d) (apples b) @ [p], score := score b + 1\<rparr> \<and>
                within_borders b p \<and> p \<notin> set (obstacles b) \<and>
                p \<notin> set (remove1 (next_cell b d) (apples b)) \<and>
                p \<notin> set (body_points (snake b)))" for b1 g1
  proof -
    assume n: "new_apple k ?b0 g = Inr (b1, g1)"
    from new_apple_result[of ?b0 k g] n obtain p where
      b1: "b1 = ?b0\<lparr>apples := apples ?b0 @ [p]\<rparr>" and p: "free_cell ?b0 p"
      by (auto simp: apple_ok_def)
    have e: "eat_or_shrink k b (next_cell b d) g = Inr (b1\<lparr>score := score b1 + 1\<rparr>, g1)"
      using assms(3) n by (simp add: eat_or_shrink_eat)
    have "update k b d shifted g = Inr (False, b1\<lparr>score := score b1 + 1\<rparr>, g1)"
      unfolding update_after_steps[OF assms(1,2) e] using assms(4) b1 by auto
    moreover have "score b1 = score b" using b1 by simp
    ultimately show ?thesis
      using b1 p by (auto simp: free_cell_def collides_def within_borders_def)
  qed
  have "update k b d shifted g =
      (case new_apple k ?b0 g of
         Inl e \<Rightarrow> Inl e
       | Inr (b1, g1) \<Rightarrow> Inr (False, b1\<lparr>score := score b + 1\<rparr>, g1))"
  proof (cases "new_apple k ?b0 g")
    case (Inl e)
    then show ?thesis using assms(1,2,3) by (simp add: update_steps eat_or_shrink_eat)
  next
    case (Inr bg)
    then obtain b1 g1 where "new_apple k ?b0 g = Inr (b1, g1)" by (cases bg) simp
    with step[of b1 g1] show ?thesis by simp
  qed
  with step show ?thesis by blast
qed

theorem update_dying_apple_move_witness:
  "body (snake curled_board) \<noteq> [] \<and>
   \<not> opposite (direction (last (body (snake curled_board)))) UP \<and>
   next_cell curled_board UP \<in> set (apples curled_board) \<and>
   next_cell curled_board UP \<in> set (body_points (snake curled_board)) \<and>
   new_apple 1000 (curled_board\<lparr>apples := remove1 (next_cell curled_board UP) (apples curled_board)\<rparr>)
     (15 ## 10 ## sconst 0) =
     Inr (curled_board\<lparr>apples := [\<lparr>x = 15, y = 10\<rparr>]\<rparr>, sconst 0) \<and>
   update 1000 curled_board UP True (15 ## 10 ## sconst 0) =
     Inr (False, curled_board\<lparr>apples := [\<lparr>x = 15, y = 10\<rparr>], score := 1\<rparr>, sconst 0)"
proof -
  have n: "next_cell curled_board UP = \<lparr>x = 1, y = 1\<rparr>"
    by (simp add: next_cell_def point_add_def curled_board_def curled_snake_def)
  have ne: "body (snake curled_board) \<noteq> []"
    and nr: "\<not> opposite (direction (last (body (snake curled_board)))) UP"
    by (simp_all add: curled_board_def curled_snake_def)
  have a: "next_cell curled_board UP \<in> set (apples curled_board)"
    and bp: "next_cell curled_board UP \<in> set (body_points (snake curled_board))"
    unfolding n by (simp_all add: curled_board_def curled_snake_def body_points_def)
  have na: "new_apple 1000 (curled_board\<lparr>apples := remove1 (next_cell curled_board UP) (apples curled_board)\<rparr>)
     (15 ## 10 ## sconst 0) =
     Inr (curled_board\<lparr>apples := [\<lparr>x = 15, y = 10\<rparr>]\<rparr>, sconst 0)"
    unfolding n
    by (simp add: new_apple_step_pos cand_def collides_def in_walls
      curled_board_def curled_snake_def body_points_def)
  from update_dying_apple_move[OF ne nr a disjI2[OF bp], where k = 1000 and shifted = True
      and g = "15 ## 10 ## sconst 0"] na
  have "update 1000 curled_board UP True (15 ## 10 ## sconst 0) =
     Inr (False, (curled_board\<lparr>apples := [\<lparr>x = 15, y = 10\<rparr>]\<rparr>)\<lparr>score := score curled_board + 1\<rparr>, sconst 0)"
    by blast
  then show ?thesis
    using ne nr a bp na by (simp add: curled_board_def)
qed

text \<open>
  C9. The parameter \<open>shifted\<close> is inert: on the same board, direction and random
  stream, \<^verbatim>\<open>update(direction, True)\<close> and \<^verbatim>\<open>update(direction, False)\<close>
  have the same outcome, returned boolean and post-state included.
\<close>

theorem update_shifted_inert: "update k b d True g = update k b d False g"
  by (simp add: update_def)

theorem update_shifted_inert_witness:
  "update 1000 (session_board [\<lparr>x = 15, y = 10\<rparr>]) RIGHT True (sconst 0) =
   update 1000 (session_board [\<lparr>x = 15, y = 10\<rparr>]) RIGHT False (sconst 0)"
  using update_shifted_inert[where k = 1000 and b = "session_board [\<lparr>x = 15, y = 10\<rparr>]" and d = RIGHT
      and g = "sconst 0"] .

text \<open>
  C10. On a board whose snake has at least two segments \<^verbatim>\<open>update\<close> never
  raises IndexError (every access to the deque is in range). On a board whose snake
  has exactly one segment, a non-reversal call whose next cell is neither an apple nor
  an obstacle (it cannot be a body point, the body being empty after the pop) raises
  IndexError at \<^verbatim>\<open>body[-1]\<close> of line 84.
\<close>

theorem update_index_error:
  "(2 \<le> length (body (snake b)) \<longrightarrow> update k b d shifted g \<noteq> Inl IndexError) \<and>
   (length (body (snake b)) = 1 \<and> \<not> opposite (direction (last (body (snake b)))) d \<and>
    next_cell b d \<notin> set (apples b) \<and> next_cell b d \<notin> set (obstacles b)
      \<longrightarrow> update k b d shifted g = Inl IndexError)"
proof (intro conjI impI)
  assume len: "2 \<le> length (body (snake b))"
  then have ne: "body (snake b) \<noteq> []" by auto
  show "update k b d shifted g \<noteq> Inl IndexError"
  proof (cases "opposite (direction (last (body (snake b)))) d")
    case True
    with ne show ?thesis by (simp add: update_reversal)
  next
    case nr: False
    show ?thesis
    proof (cases "eat_or_shrink k b (next_cell b d) g")
      case (Inl e)
      with ne have "e \<noteq> IndexError" using eat_or_shrink_error by blast
      with Inl ne nr show ?thesis by (simp add: update_steps)
    next
      case (Inr bg)
      obtain b2 g2 where bg: "bg = (b2, g2)" by (cases bg)
      from eat_or_shrink_keeps[OF Inr[unfolded bg] ne] len
      have "body (snake b2) \<noteq> []"
        by (cases "body (snake b)") (auto split: if_splits)
      with Inr bg ne nr show ?thesis
        by (simp add: update_steps move_head_def last_elem_def)
    qed
  qed
next
  assume a: "length (body (snake b)) = 1 \<and> \<not> opposite (direction (last (body (snake b)))) d \<and>
    next_cell b d \<notin> set (apples b) \<and> next_cell b d \<notin> set (obstacles b)"
  then obtain p where p: "body (snake b) = [p]"
    by (cases "body (snake b)") auto
  with a show "update k b d shifted g = Inl IndexError"
    by (simp add: update_steps eat_or_shrink_pop move_head_def last_elem_def body_points_def)
qed

theorem update_index_error_witness:
  "2 \<le> length (body (snake (session_board [\<lparr>x = 15, y = 10\<rparr>]))) \<and>
   update 1000 (session_board [\<lparr>x = 15, y = 10\<rparr>]) RIGHT False (sconst 0) \<noteq> Inl IndexError \<and>
   length (body (snake lone_board)) = 1 \<and>
   \<not> opposite (direction (last (body (snake lone_board)))) RIGHT \<and>
   next_cell lone_board RIGHT \<notin> set (apples lone_board) \<and>
   next_cell lone_board RIGHT \<notin> set (obstacles lone_board) \<and>
   update 1000 lone_board RIGHT False (sconst 0) = Inl IndexError"
  using update_index_error[where b = "session_board [\<lparr>x = 15, y = 10\<rparr>]" and d = RIGHT
      and k = 1000 and shifted = False and g = "sconst 0"]
    update_index_error[where b = lone_board and d = RIGHT and k = 1000 and shifted = False
      and g = "sconst 0"]
  by (simp add: session_board_def init_snake_body lone_board_def next_cell_def point_add_def in_walls)

end
